theory Spec2Isabelle
  imports Complex_Main "HOL-Library.Sublist" "HOL-Library.Log_Nat"
begin

section \<open>The platform: ECMAScript numbers and Date objects\<close>

text \<open>
  The scheduler is TypeScript and leans on the built-in \<^verbatim>\<open>Date\<close>. The part of ECMA-262
  (section "Date Objects") that the source calls is written out here.

  \<^item> A time value is a number of milliseconds since 1970-01-01T00:00:00Z. A Date object
    holds a time value or NaN ("Invalid Date"); \<open>None\<close> stands for NaN.
  \<^item> A JavaScript number that may be NaN is an \<open>int option\<close> in the same way; the value
    \<^verbatim>\<open>undefined\<close> read from a missing table key turns into NaN as soon as it is added.
  \<^item> The local time zone is a parameter \<open>z\<close>, the LocalTZA of ECMA-262: \<open>z t True\<close> is
    the offset from UTC (in milliseconds, east positive) in force at the instant \<open>t\<close>, and
    \<open>z t False\<close> the offset by which the local time \<open>t\<close> is read. The two differ around
    a change of the clocks, and neither is assumed constant.
  \<^item> A Date holds a time value of at most \<open>8.64 * 10^15\<close> in absolute value: \<open>TimeClip\<close>
    makes the Date invalid beyond that. A reading of the clock (\<^verbatim>\<open>new Date()\<close>) is a valid
    time value. The arithmetic on the time values of a valid Date and its
    neighbours stays below \<open>2^53\<close>, where doubles are exact on integers.
  \<^item> A number is an IEEE 754 double. Levels, time values and the sum of the levels are of
    type \<open>int\<close>. The review count is an \<open>int\<close> incremented by the addition of
    doubles, \<open>double_add\<close>. A number that need not be an integer (the average level) is
    a \<open>rat\<close>, and the quotient and the product that produce one are rounded to the
    nearest double by \<open>fl\<close>.
  \<^item> An ISO-8601 string produced by \<^verbatim>\<open>toISOString\<close> is represented by the time value
    it denotes; parsing such a string (\<^verbatim>\<open>new Date(string)\<close>) gives that time value back.
\<close>

datatype js_error = RangeError

type_synonym Date = "int option"

type_synonym ISOString = int

type_synonym zone = "int \<Rightarrow> bool \<Rightarrow> int"

definition msPerDay :: int where
  "msPerDay = 86400000"

definition Day :: "int \<Rightarrow> int" where
  "Day t = t div msPerDay"

definition TimeWithinDay :: "int \<Rightarrow> int" where
  "TimeWithinDay t = t mod msPerDay"

definition DaysInYear :: "int \<Rightarrow> int" where
  "DaysInYear y =
     (if y mod 4 \<noteq> 0 then 365
      else if y mod 100 \<noteq> 0 then 366
      else if y mod 400 \<noteq> 0 then 365
      else 366)"

definition DayFromYear :: "int \<Rightarrow> int" where
  "DayFromYear y =
     365 * (y - 1970) + (y - 1969) div 4 - (y - 1901) div 100 + (y - 1601) div 400"

text \<open>
  ECMA-262 specifies \<open>YearFromTime t\<close> as the largest \<open>y\<close> with
  \<open>msPerDay * DayFromYear y \<le> t\<close>. It is computed here in closed form, over the
  400-year cycle of 146097 days counted from 0000-03-01.
\<close>

definition YearFromTime :: "int \<Rightarrow> int" where
  "YearFromTime t =
     (let z = Day t + 719468;
          era = z div 146097;
          doe = z mod 146097;
          yoe = (doe - doe div 1460 + doe div 36524 - doe div 146096) div 365;
          doy = doe - (365 * yoe + yoe div 4 - yoe div 100)
      in yoe + era * 400 + (if doy < 306 then 0 else 1))"

definition InLeapYear :: "int \<Rightarrow> int" where
  "InLeapYear t = (if DaysInYear (YearFromTime t) = 366 then 1 else 0)"

definition DayWithinYear :: "int \<Rightarrow> int" where
  "DayWithinYear t = Day t - DayFromYear (YearFromTime t)"

definition MonthFromTime :: "int \<Rightarrow> int" where
  "MonthFromTime t =
     (let d = DayWithinYear t; l = InLeapYear t in
      if d < 31 then 0
      else if d < 59 + l then 1
      else if d < 90 + l then 2
      else if d < 120 + l then 3
      else if d < 151 + l then 4
      else if d < 181 + l then 5
      else if d < 212 + l then 6
      else if d < 243 + l then 7
      else if d < 273 + l then 8
      else if d < 304 + l then 9
      else if d < 334 + l then 10
      else 11)"

text \<open>The day within the year on which month \<open>m\<close> (0 to 11) starts; \<open>l\<close> is 1 in a leap year.\<close>

definition MonthStart :: "int \<Rightarrow> int \<Rightarrow> int" where
  "MonthStart m l =
     (if m = 0 then 0
      else if m = 1 then 31
      else if m = 2 then 59 + l
      else if m = 3 then 90 + l
      else if m = 4 then 120 + l
      else if m = 5 then 151 + l
      else if m = 6 then 181 + l
      else if m = 7 then 212 + l
      else if m = 8 then 243 + l
      else if m = 9 then 273 + l
      else if m = 10 then 304 + l
      else 334 + l)"

definition DateFromTime :: "int \<Rightarrow> int" where
  "DateFromTime t = DayWithinYear t - MonthStart (MonthFromTime t) (InLeapYear t) + 1"

text \<open>
  \<open>MakeDay\<close> carries months outside 0..11 into the year and lets the day of the month
  run over the month's end: it returns the day number of the first of the month plus
  \<open>date - 1\<close>.
\<close>

definition MakeDay :: "int \<Rightarrow> int \<Rightarrow> int \<Rightarrow> int" where
  "MakeDay year month date =
     (let ym = year + month div 12;
          mn = month mod 12
      in DayFromYear ym + MonthStart mn (if DaysInYear ym = 366 then 1 else 0) + date - 1)"

definition MakeTime :: "int \<Rightarrow> int \<Rightarrow> int \<Rightarrow> int \<Rightarrow> int" where
  "MakeTime hour minute sec ms = hour * 3600000 + minute * 60000 + sec * 1000 + ms"

definition MakeDate :: "int \<Rightarrow> int \<Rightarrow> int" where
  "MakeDate day time = day * msPerDay + time"

definition LocalTime :: "zone \<Rightarrow> int \<Rightarrow> int" where
  "LocalTime z t = t + z t True"

definition UTC :: "zone \<Rightarrow> int \<Rightarrow> int" where
  "UTC z t = t - z t False"

definition inRange :: "int \<Rightarrow> bool" where
  "inRange t = (\<bar>t\<bar> \<le> 8640000000000000)"

definition TimeClip :: "int \<Rightarrow> Date" where
  "TimeClip t = (if inRange t then Some t else None)"

text \<open>\<^verbatim>\<open>a + b\<close> on numbers: NaN (and \<^verbatim>\<open>undefined\<close>, converted by ToNumber) is contagious.\<close>

definition js_add :: "int option \<Rightarrow> int option \<Rightarrow> int option" where
  "js_add a b =
     (case a of None \<Rightarrow> None
      | Some x \<Rightarrow> (case b of None \<Rightarrow> None | Some y \<Rightarrow> Some (x + y)))"

text \<open>\<^verbatim>\<open>Date.prototype.getDate\<close>: the day of the month in local time, NaN on an invalid Date.\<close>

definition getDate :: "zone \<Rightarrow> Date \<Rightarrow> int option" where
  "getDate z d =
     (case d of None \<Rightarrow> None
      | Some t \<Rightarrow> Some (DateFromTime (LocalTime z t)))"

text \<open>
  \<^verbatim>\<open>Date.prototype.setDate(date)\<close>: the new time value of the Date object. An invalid
  Date stays invalid, a NaN argument makes the Date invalid, and so does a result beyond
  the range of time values.
\<close>

definition setDate :: "zone \<Rightarrow> Date \<Rightarrow> int option \<Rightarrow> Date" where
  "setDate z d date =
     (case d of None \<Rightarrow> None
      | Some t0 \<Rightarrow>
          (case date of None \<Rightarrow> None
           | Some dt \<Rightarrow>
               (let t = LocalTime z t0;
                    newDate = MakeDate (MakeDay (YearFromTime t) (MonthFromTime t) dt)
                                (TimeWithinDay t)
                in TimeClip (UTC z newDate))))"

text \<open>\<^verbatim>\<open>Date.prototype.setHours(hour, min, sec, ms)\<close> with four numeric arguments.\<close>

definition setHours :: "zone \<Rightarrow> Date \<Rightarrow> int \<Rightarrow> int \<Rightarrow> int \<Rightarrow> int \<Rightarrow> Date" where
  "setHours z d hour minute sec ms =
     (case d of None \<Rightarrow> None
      | Some t0 \<Rightarrow>
          (let t = LocalTime z t0;
               date = MakeDate (Day t) (MakeTime hour minute sec ms)
           in TimeClip (UTC z date)))"

text \<open>\<^verbatim>\<open>Date.prototype.toISOString\<close> throws a RangeError on an invalid Date.\<close>

definition toISOString :: "Date \<Rightarrow> js_error + ISOString" where
  "toISOString d = (case d of None \<Rightarrow> Inl RangeError | Some t \<Rightarrow> Inr t)"

text \<open>\<^verbatim>\<open>new Date(isoString)\<close> on a string written by \<^verbatim>\<open>toISOString\<close>.\<close>

definition Date_parse :: "ISOString \<Rightarrow> Date" where
  "Date_parse s = Some s"

text \<open>\<^verbatim>\<open>a <= b\<close> on two Date objects compares their time values; with NaN it is false.\<close>

definition Date_le :: "Date \<Rightarrow> Date \<Rightarrow> bool" where
  "Date_le a b =
     (case a of None \<Rightarrow> False
      | Some x \<Rightarrow> (case b of None \<Rightarrow> False | Some y \<Rightarrow> x \<le> y))"

text \<open>
  Rounding to double precision. \<open>binary_exponent x\<close> is the \<open>e\<close> with
  \<open>2^e \<le> x < 2^(e+1)\<close> for a positive \<open>x\<close>, and \<open>fl x\<close> is the multiple of \<open>2^(e-52)\<close>
  nearest to \<open>x\<close>, the even one of two that are equally near (the default rounding of
  IEEE 754, with 53 significant bits). The exponent is not bounded: overflow to Infinity
  and subnormal numbers are not modelled.
\<close>

definition round_even :: "rat \<Rightarrow> int" where
  "round_even y =
     (let f = \<lfloor>y\<rfloor>; d = y - of_int f in
      if d < 1 / 2 then f
      else if 1 / 2 < d then f + 1
      else if even f then f else f + 1)"

definition binary_exponent :: "rat \<Rightarrow> int" where
  "binary_exponent x =
     (if 1 \<le> x then bitlen \<lfloor>x\<rfloor> - 1 else - bitlen (\<lceil>1 / x\<rceil> - 1))"

definition fl :: "rat \<Rightarrow> rat" where
  "fl x =
     (if x = 0 then 0
      else let u = 2 powi (binary_exponent \<bar>x\<bar> - 52)
           in sgn x * of_int (round_even (\<bar>x\<bar> / u)) * u)"

text \<open>
  \<^verbatim>\<open>a + b\<close> on two doubles whose values are the integers \<open>a\<close> and \<open>b\<close>: the sum,
  rounded to a double. From \<open>2^53\<close> on not every integer is a double, and the sum is
  the nearest one that is.
\<close>

definition double_add :: "int \<Rightarrow> int \<Rightarrow> int" where
  "double_add a b = \<lfloor>fl (of_int a + of_int b)\<rfloor>"

text \<open>\<^verbatim>\<open>Math.round\<close>: the nearest integer, a tie going up.\<close>

definition Math_round :: "rat \<Rightarrow> int" where
  "Math_round x = \<lfloor>x + 1 / 2\<rfloor>"

section \<open>The data model (types/flashcard)\<close>

text \<open>
  \<^verbatim>\<open>LeitnerLevel = 0 | 1 | 2 | 3 | 4 | 5\<close> is a compile-time type only: at run time a level
  is a number, and cards are read back from storage with \<^verbatim>\<open>JSON.parse\<close> unchecked. A
  level is therefore an \<open>int\<close>, and the type is a predicate on it.
\<close>

definition LeitnerLevel :: "int \<Rightarrow> bool" where
  "LeitnerLevel l = (l = 0 \<or> l = 1 \<or> l = 2 \<or> l = 3 \<or> l = 4 \<or> l = 5)"

datatype ConfidenceScore = forgot | know

record FlashCard =
  card_id :: string
  question :: string
  answer :: string
  level :: int
  nextReviewDate :: ISOString
  lastReviewDate :: "ISOString option"
  createdAt :: ISOString
  reviewCount :: int

record DeckStats =
  totalCards :: nat
  cardsToReview :: nat
  masteredCards :: nat
  averageLevel :: rat

record ReviewResult =
  card_r :: FlashCard
  previousLevel :: int
  newLevel :: int
  nextReviewDate_r :: ISOString

section \<open>The Leitner scheduler (lib/leitner)\<close>

definition LEITNER_INTERVALS :: "int \<Rightarrow> int option" where
  "LEITNER_INTERVALS = map_of [(0, 0), (1, 1), (2, 3), (3, 7), (4, 14), (5, 30)]"

definition calculateNextReviewDate :: "zone \<Rightarrow> int \<Rightarrow> Date \<Rightarrow> js_error + ISOString" where
  "calculateNextReviewDate z lvl fromDate =
     (let interval = LEITNER_INTERVALS lvl;
          nextDate0 = fromDate;
          nextDate1 = setDate z nextDate0 (js_add (getDate z nextDate0) interval);
          nextDate2 = setHours z nextDate1 0 0 0 0
      in toISOString nextDate2)"

definition calculateNewLevel :: "int \<Rightarrow> ConfidenceScore \<Rightarrow> int" where
  "calculateNewLevel currentLevel confidence =
     (if confidence = forgot then 0 else min (currentLevel + 1) 5)"

text \<open>
  \<open>reviewCard\<close> reads the clock twice: \<open>clock1\<close> is the \<^verbatim>\<open>new Date()\<close> that
  \<^verbatim>\<open>calculateNextReviewDate\<close> takes as its default \<^verbatim>\<open>fromDate\<close>, \<open>clock2\<close> the later
  \<^verbatim>\<open>new Date()\<close> of \<^verbatim>\<open>lastReviewDate\<close>. The spread \<^verbatim>\<open>{...card, ...}\<close> is a record update.
\<close>

definition reviewCard ::
  "zone \<Rightarrow> int \<Rightarrow> int \<Rightarrow> FlashCard \<Rightarrow> ConfidenceScore \<Rightarrow> js_error + ReviewResult" where
  "reviewCard z clock1 clock2 c confidence =
     (let previousLevel = level c;
          newLevel = calculateNewLevel previousLevel confidence
      in case calculateNextReviewDate z newLevel (Some clock1) of
           Inl e \<Rightarrow> Inl e
         | Inr nextReview \<Rightarrow>
             (case toISOString (Some clock2) of
                Inl e \<Rightarrow> Inl e
              | Inr lastReview \<Rightarrow>
                  Inr \<lparr>card_r = c\<lparr>level := newLevel,
                                       nextReviewDate := nextReview,
                                       lastReviewDate := Some lastReview,
                                       reviewCount := double_add (reviewCount c) 1\<rparr>,
                       previousLevel = previousLevel,
                       newLevel = newLevel,
                       nextReviewDate_r = nextReview\<rparr>))"

definition isCardDue :: "zone \<Rightarrow> int \<Rightarrow> FlashCard \<Rightarrow> bool" where
  "isCardDue z clock c =
     (let now = setHours z (Some clock) 0 0 0 0;
          reviewDate = Date_parse (nextReviewDate c)
      in Date_le reviewDate now)"

text \<open>
  \<^verbatim>\<open>cards.filter(isCardDue)\<close> calls \<open>isCardDue\<close> once per card, and each call reads the
  clock anew: \<open>clock i\<close> is the reading taken for the card at index \<open>i\<close>.
\<close>

definition getDueCards :: "zone \<Rightarrow> (nat \<Rightarrow> int) \<Rightarrow> FlashCard list \<Rightarrow> FlashCard list" where
  "getDueCards z clock cards =
     map snd (filter (\<lambda>(i, c). isCardDue z (clock i) c) (enumerate 0 cards))"

text \<open>
  The sum of the levels is an integer. The division by \<open>totalCards\<close>, the product with
  10 and the division by 10 are double operations, each rounded by \<open>fl\<close>.
\<close>

definition calculateDeckStats :: "zone \<Rightarrow> (nat \<Rightarrow> int) \<Rightarrow> FlashCard list \<Rightarrow> DeckStats" where
  "calculateDeckStats z clock cards =
     (let totalCards = length cards;
          cardsToReview = length (getDueCards z clock cards);
          masteredCards = length (filter (\<lambda>c. level c = 5) cards);
          averageLevel =
            (if totalCards > 0
             then fl (of_int (foldl (\<lambda>sum c. sum + level c) 0 cards) / of_nat totalCards)
             else 0)
      in \<lparr>totalCards = totalCards,
          cardsToReview = cardsToReview,
          masteredCards = masteredCards,
          averageLevel = fl (of_int (Math_round (fl (averageLevel * 10))) / 10)\<rparr>)"

text \<open>\<open>uuid\<close> is the string that \<^verbatim>\<open>crypto.randomUUID()\<close> returns to this call.\<close>

definition createNewCard ::
  "zone \<Rightarrow> string \<Rightarrow> int \<Rightarrow> string \<Rightarrow> string \<Rightarrow> js_error + FlashCard" where
  "createNewCard z uuid clock q a =
     (let now = Some clock;
          todayAtMidnight = setHours z now 0 0 0 0
      in case toISOString todayAtMidnight of
           Inl e \<Rightarrow> Inl e
         | Inr midnight \<Rightarrow>
             (case toISOString now of
                Inl e \<Rightarrow> Inl e
              | Inr created \<Rightarrow>
                  Inr \<lparr>card_id = uuid,
                       question = q,
                       answer = a,
                       level = 0,
                       nextReviewDate = midnight,
                       lastReviewDate = None,
                       createdAt = created,
                       reviewCount = 0\<rparr>))"

section \<open>The deck reset (hooks/useFlashCards)\<close>

text \<open>\<^verbatim>\<open>Array.prototype.map\<close> with a callback that may throw: the first exception ends it.\<close>

fun map_throwing :: "('a \<Rightarrow> js_error + 'b) \<Rightarrow> 'a list \<Rightarrow> js_error + 'b list" where
  "map_throwing f [] = Inr []"
| "map_throwing f (x # xs) =
     (case f x of
        Inl e \<Rightarrow> Inl e
      | Inr y \<Rightarrow> (case map_throwing f xs of Inl e \<Rightarrow> Inl e | Inr ys \<Rightarrow> Inr (y # ys)))"

text \<open>
  \<open>resetDeck\<close> is the spec's \<open>resetCard\<close> applied to every card of the deck; the list it
  returns is what the hook hands to \<^verbatim>\<open>persistCards\<close>.
\<close>

definition resetDeck :: "zone \<Rightarrow> int \<Rightarrow> FlashCard list \<Rightarrow> js_error + FlashCard list" where
  "resetDeck z clock cards =
     (let now = setHours z (Some clock) 0 0 0 0
      in map_throwing
           (\<lambda>c. case toISOString now of
                      Inl e \<Rightarrow> Inl e
                    | Inr midnight \<Rightarrow>
                        Inr (c\<lparr>level := 0,
                                  nextReviewDate := midnight,
                                  lastReviewDate := None,
                                  reviewCount := 0\<rparr>))
           cards)"

section \<open>Objects and references\<close>

text \<open>
  A JavaScript object is reached through a reference. To say that \<open>reviewCard\<close> leaves its
  argument alone, the objects live in a store (a list indexed by reference): the call
  reads the card at \<open>ref\<close>, and its object literal allocates the updated card at the next
  free reference. The result is the new store, the reference of the updated card and the
  \<open>ReviewResult\<close>.
\<close>

type_synonym store = "FlashCard list"

definition reviewCard_store ::
  "zone \<Rightarrow> int \<Rightarrow> int \<Rightarrow> store \<Rightarrow> nat \<Rightarrow> ConfidenceScore \<Rightarrow> js_error + store \<times> nat \<times> ReviewResult" where
  "reviewCard_store z clock1 clock2 h ref confidence =
     (case reviewCard z clock1 clock2 (h ! ref) confidence of
        Inl e \<Rightarrow> Inl e
      | Inr r \<Rightarrow> Inr (h @ [card_r r], length h, r))"

section \<open>The vocabulary of the specification\<close>

text \<open>
  The local calendar day of an instant (as a day number), the instant of local midnight
  of a day, and the start of the local day of an instant. "The start of the day of \<open>t\<close>
  plus \<open>n\<close> calendar days" is \<open>localMidnight z (localDay z t + n)\<close>.
\<close>

definition localDay :: "zone \<Rightarrow> int \<Rightarrow> int" where
  "localDay z t = Day (LocalTime z t)"

definition localMidnight :: "zone \<Rightarrow> int \<Rightarrow> int" where
  "localMidnight z d = UTC z (d * msPerDay)"

definition startOfDay :: "zone \<Rightarrow> int \<Rightarrow> int" where
  "startOfDay z t = localMidnight z (localDay z t)"

text \<open>Two instants on the same local calendar day.\<close>

definition sameDay :: "zone \<Rightarrow> int \<Rightarrow> int \<Rightarrow> bool" where
  "sameDay z t1 t2 = (localDay z t1 = localDay z t2)"

text \<open>
  What \<open>setDate\<close> followed by \<open>setHours\<close> computes: the start of the local day on which
  the wall-clock time of \<open>t\<close>, \<open>n\<close> days on, falls.
\<close>

definition nextMidnight :: "zone \<Rightarrow> int \<Rightarrow> int \<Rightarrow> int" where
  "nextMidnight z t n = startOfDay z (UTC z (LocalTime z t + n * msPerDay))"

text \<open>
  Time zones as they are: no offset exceeds a day (\<open>zone_bounded\<close>), and a local time
  read as an instant and shown as local time again is on the same calendar day
  (\<open>zone_days\<close>): a change of the clocks may skip or repeat an hour, not carry a skipped
  time over midnight.
\<close>

definition zone_bounded :: "zone \<Rightarrow> bool" where
  "zone_bounded z = (\<forall>t b. \<bar>z t b\<bar> \<le> msPerDay)"

definition zone_days :: "zone \<Rightarrow> bool" where
  "zone_days z = (\<forall>x. Day (LocalTime z (UTC z x)) = Day x)"

text \<open>An instant at least 40 days inside the range of time values.\<close>

definition awayFromLimits :: "int \<Rightarrow> bool" where
  "awayFromLimits t = (\<bar>t\<bar> \<le> 8640000000000000 - 40 * msPerDay)"

text \<open>
  Two zones for the concrete instances: UTC, and New York in 2024, on Eastern Standard
  Time (UTC-5) until 2024-03-10T07:00Z, on Daylight Time (UTC-4) until 2024-11-03T06:00Z
  and on Standard Time after. A local time that the change skips or repeats is read by
  the offset before the change, as ECMA-262 says.
\<close>

definition utcZone :: zone where
  "utcZone t isUTC = 0"

definition newYork2024 :: zone where
  "newYork2024 t isUTC =
     (if isUTC
      then (if t < 1710054000000 then - 18000000
            else if t < 1730613600000 then - 14400000 else - 18000000)
      else (if t < 1710039600000 then - 18000000
            else if t < 1730599200000 then - 14400000 else - 18000000))"

text \<open>The level-to-interval table of the specification, in days.\<close>

definition intervalDays :: "int \<Rightarrow> int" where
  "intervalDays l =
     (if l = 0 then 0 else if l = 1 then 1 else if l = 2 then 3
      else if l = 3 then 7 else if l = 4 then 14 else 30)"

text \<open>The arithmetic mean of the levels, and rounding to one decimal place, half up.\<close>

definition meanLevel :: "FlashCard list \<Rightarrow> rat" where
  "meanLevel cards = of_int (sum_list (map level cards)) / of_nat (length cards)"

definition roundHalfUp1 :: "rat \<Rightarrow> rat" where
  "roundHalfUp1 x = of_int \<lfloor>x * 10 + 1 / 2\<rfloor> / 10"

text \<open>A card for the concrete instances below; only its level varies.\<close>

definition exampleCard :: "int \<Rightarrow> FlashCard" where
  "exampleCard l =
     \<lparr>card_id = ''c1'', question = ''Q'', answer = ''A'', level = l,
      nextReviewDate = 0, lastReviewDate = None, createdAt = 0, reviewCount = 0\<rparr>"

section \<open>Date arithmetic\<close>

lemma MonthFromTime_range: "0 \<le> MonthFromTime t \<and> MonthFromTime t \<le> 11"
  by (simp add: MonthFromTime_def Let_def)

text \<open>
  Reading the day of the month and writing it back with \<open>n\<close> added moves the Date by
  \<open>n\<close> days, whatever the month and the year: \<open>MakeDay\<close> adds back the start of the
  month that \<open>DateFromTime\<close> took off.
\<close>

lemma MakeDay_DateFromTime:
  "MakeDay (YearFromTime t) (MonthFromTime t) (DateFromTime t + n) = Day t + n"
proof -
  have m: "MonthFromTime t div 12 = 0" "MonthFromTime t mod 12 = MonthFromTime t"
    using MonthFromTime_range [of t] by simp_all
  show ?thesis
    by (simp add: MakeDay_def Let_def m DateFromTime_def DayWithinYear_def InLeapYear_def)
qed

lemma MakeDate_Day: "MakeDate (Day t + n) (TimeWithinDay t) = t + n * msPerDay"
  by (simp add: MakeDate_def Day_def TimeWithinDay_def algebra_simps)

lemma setDate_getDate:
  "setDate z (Some t) (js_add (getDate z (Some t)) (Some n)) =
     TimeClip (UTC z (LocalTime z t + n * msPerDay))"
  by (simp add: setDate_def getDate_def js_add_def Let_def MakeDay_DateFromTime MakeDate_Day)

lemma setHours_midnight: "setHours z (Some t) 0 0 0 0 = TimeClip (startOfDay z t)"
  by (simp add: setHours_def startOfDay_def localMidnight_def localDay_def Let_def MakeDate_def
      MakeTime_def)

lemma toISOString_Some: "toISOString (Some t) = Inr t"
  by (simp add: toISOString_def)

lemma Day_bounds: "Day t * msPerDay \<le> t \<and> t < Day t * msPerDay + msPerDay"
proof -
  have "t = t div msPerDay * msPerDay + t mod msPerDay"
    by simp
  moreover have "0 \<le> t mod msPerDay" "t mod msPerDay < msPerDay"
    by (simp_all add: msPerDay_def)
  ultimately show ?thesis
    unfolding Day_def by linarith
qed


lemma Day_add_days: "Day (t + n * msPerDay) = Day t + n"
  by (simp add: Day_def msPerDay_def)


lemma startOfDay_sameDay: "sameDay z t1 t2 \<Longrightarrow> startOfDay z t1 = startOfDay z t2"
  by (simp add: sameDay_def startOfDay_def)

section \<open>Time zones\<close>

text \<open>
  In a zone with \<open>zone_days\<close>, the start of the day that \<open>setDate\<close> and \<open>setHours\<close> reach
  is local midnight \<open>n\<close> calendar days after the local day of \<open>t\<close>, and that midnight is
  on the day it names.
\<close>

lemma nextMidnight_days:
  "zone_days z \<Longrightarrow> nextMidnight z t n = localMidnight z (localDay z t + n)"
  by (simp add: nextMidnight_def startOfDay_def localDay_def zone_days_def Day_add_days)


text \<open>With offsets below a day, the dates computed from \<open>t\<close> stay within days of \<open>t\<close>.\<close>

lemma startOfDay_near:
  assumes "zone_bounded z"
  shows "\<bar>startOfDay z t - t\<bar> \<le> 3 * msPerDay"
proof -
  define l where "l = LocalTime z t"
  have o1: "\<bar>z t True\<bar> \<le> msPerDay" and o2: "\<bar>z (Day l * msPerDay) False\<bar> \<le> msPerDay"
    using assms by (simp_all add: zone_bounded_def)
  have l: "l = t + z t True"
    by (simp add: l_def LocalTime_def)
  have s: "startOfDay z t = Day l * msPerDay - z (Day l * msPerDay) False"
    by (simp add: startOfDay_def localMidnight_def localDay_def UTC_def l_def)
  show ?thesis
    using o1 o2 Day_bounds [of l] unfolding s l by linarith
qed

lemma shifted_near:
  assumes "zone_bounded z"
  shows "\<bar>UTC z (LocalTime z t + n * msPerDay) - (t + n * msPerDay)\<bar> \<le> 2 * msPerDay"
proof -
  have o1: "\<bar>z t True\<bar> \<le> msPerDay"
    and o2: "\<bar>z (t + z t True + n * msPerDay) False\<bar> \<le> msPerDay"
    using assms by (simp_all add: zone_bounded_def)
  show ?thesis
    using o1 o2 by (simp add: UTC_def LocalTime_def)
qed

lemma startOfDay_inRange:
  assumes "zone_bounded z" and "awayFromLimits t"
  shows "inRange (startOfDay z t)"
  using startOfDay_near [OF assms(1), of t] assms(2)
  by (simp add: inRange_def awayFromLimits_def msPerDay_def)

lemma shifted_inRange:
  assumes "zone_bounded z" and "awayFromLimits t" and "0 \<le> n" and "n \<le> 30"
  shows "inRange (UTC z (LocalTime z t + n * msPerDay))"
  using shifted_near [OF assms(1), of t n] assms(2-4)
  by (simp add: inRange_def awayFromLimits_def msPerDay_def)

lemma nextMidnight_inRange:
  assumes "zone_bounded z" and "awayFromLimits t" and "0 \<le> n" and "n \<le> 30"
  shows "inRange (nextMidnight z t n)"
  using shifted_near [OF assms(1), of t n]
    startOfDay_near [OF assms(1), of "UTC z (LocalTime z t + n * msPerDay)"] assms(2-4)
  by (simp add: nextMidnight_def inRange_def awayFromLimits_def msPerDay_def)

lemma zone_bounded_utcZone: "zone_bounded utcZone"
  by (simp add: zone_bounded_def utcZone_def msPerDay_def)

lemma zone_days_utcZone: "zone_days utcZone"
  by (simp add: zone_days_def utcZone_def LocalTime_def UTC_def)

lemma zone_bounded_newYork2024: "zone_bounded newYork2024"
  by (simp add: zone_bounded_def newYork2024_def msPerDay_def)


section \<open>Double rounding\<close>

lemma round_even_err: "\<bar>of_int (round_even y) - y\<bar> \<le> 1 / 2"
proof -
  have "of_int \<lfloor>y\<rfloor> \<le> y" "y < of_int \<lfloor>y\<rfloor> + 1"
    by linarith+
  then show ?thesis
    by (auto simp: round_even_def Let_def abs_le_iff)
qed

lemma round_even_nonneg: "0 \<le> y \<Longrightarrow> 0 \<le> round_even y"
  by (auto simp: round_even_def Let_def)

lemma two_powi_nat: "0 \<le> k \<Longrightarrow> (2::rat) powi k = of_int (2 ^ nat k)"
  by (simp add: power_int_def)

lemma binary_exponent_bounds:
  assumes "0 < x"
  shows "2 powi binary_exponent x \<le> x \<and> x < 2 powi (binary_exponent x + 1)"
proof (cases "1 \<le> x")
  case True
  define f where "f = \<lfloor>x\<rfloor>"
  define b where "b = bitlen f"
  have f: "0 < f" using True by (simp add: f_def)
  have b: "1 \<le> b" using f by (simp add: b_def bitlen_alt_def)
  have i: "2 ^ nat (b - 1) \<le> f" "f + 1 \<le> 2 ^ nat b"
    using bitlen_bounds [OF f] by (simp_all add: b_def)
  have e: "binary_exponent x = b - 1"
    using True by (simp add: binary_exponent_def f_def b_def)
  have "(2::rat) powi (b - 1) \<le> of_int f"
    using i(1) b by (simp only: two_powi_nat of_int_le_iff)
  also have "\<dots> \<le> x" by (simp add: f_def)
  finally have lo: "(2::rat) powi (b - 1) \<le> x" .
  have "x < of_int (f + 1)" by (simp add: f_def) linarith
  also have "\<dots> \<le> (2::rat) powi b"
    using i(2) b by (simp only: two_powi_nat of_int_le_iff)
  finally have hi: "x < (2::rat) powi b" .
  show ?thesis using lo hi by (simp add: e)
next
  case False
  define r where "r = 1 / x"
  define c where "c = \<lceil>r\<rceil>"
  define j where "j = bitlen (c - 1)"
  have r1: "1 < r" using assms False by (simp add: r_def)
  then have "1 < c" by (simp add: c_def less_ceiling_iff)
  then have c: "0 < c - 1" by simp
  have j: "1 \<le> j" using c by (simp add: j_def bitlen_alt_def)
  have i: "2 ^ nat (j - 1) \<le> c - 1" "c \<le> 2 ^ nat j"
    using bitlen_bounds [OF c] by (simp_all add: j_def)
  have e: "binary_exponent x = - j"
    using False by (simp add: binary_exponent_def r_def c_def j_def)
  have "r \<le> of_int c" by (simp add: c_def)
  also have "\<dots> \<le> (2::rat) powi j"
    using i(2) j by (simp only: two_powi_nat of_int_le_iff)
  finally have "1 / x \<le> (2::rat) powi j" by (simp add: r_def)
  then have "1 \<le> x * 2 powi j"
    using assms by (simp add: field_simps)
  then have lo: "(2::rat) powi (- j) \<le> x"
    by (simp add: power_int_minus_divide field_simps)
  have "(2::rat) powi (j - 1) \<le> of_int (c - 1)"
    using i(1) j by (simp only: two_powi_nat of_int_le_iff)
  also have "\<dots> < r" by (simp add: c_def) linarith
  finally have "(2::rat) powi (j - 1) < 1 / x" by (simp add: r_def)
  then have "x < 1 / 2 powi (j - 1)"
    using assms by (simp add: field_simps)
  also have "1 / (2::rat) powi (j - 1) = 2 powi (- j + 1)"
    using power_int_minus_divide [of "2::rat" "j - 1"] by simp
  finally have hi: "x < (2::rat) powi (- j + 1)" .
  show ?thesis using lo hi by (simp add: e)
qed

lemma fl_nonneg: "0 \<le> x \<Longrightarrow> 0 \<le> fl x"
  by (auto simp: fl_def Let_def intro!: mult_nonneg_nonneg round_even_nonneg divide_nonneg_nonneg)

lemma fl_err:
  assumes "0 \<le> x" and "x < 64"
  shows "\<bar>fl x - x\<bar> \<le> 1 / 2 ^ 48"
proof (cases "x = 0")
  case True
  then show ?thesis by (simp add: fl_def)
next
  case False
  with assms have pos: "0 < x" by simp
  define e where "e = binary_exponent x"
  define u :: rat where "u = 2 powi (e - 52)"
  have u: "0 < u" by (simp add: u_def)
  have "(2::rat) powi e \<le> x" using binary_exponent_bounds [OF pos] by (simp add: e_def)
  also have "x < 2 powi 6" using assms(2) by simp
  finally have "(2::rat) powi e < 2 powi 6" .
  then have "e < 6" by (rule power_int_le_imp_less_exp [rotated]) simp_all
  then have "e - 52 \<le> - 47" by simp
  then have "u \<le> 2 powi (- 47)"
    unfolding u_def by (intro power_int_increasing) simp_all
  moreover have "(2::rat) powi (- 47) = 1 / 2 ^ 47"
    by (simp add: power_int_minus_divide)
  ultimately have u47: "u \<le> 1 / 2 ^ 47" by (simp only:)
  have fl: "fl x = of_int (round_even (x / u)) * u"
    using pos by (simp add: fl_def Let_def e_def u_def)
  have "fl x - x = (of_int (round_even (x / u)) - x / u) * u"
    using u by (simp add: fl field_simps)
  then have "\<bar>fl x - x\<bar> = \<bar>of_int (round_even (x / u)) - x / u\<bar> * u"
    using u by (simp add: abs_mult)
  also have "\<dots> \<le> 1 / 2 * u"
    using round_even_err [of "x / u"] u by (intro mult_right_mono) simp_all
  also have "\<dots> \<le> 1 / 2 * (1 / 2 ^ 47)"
    using u47 by simp
  finally show ?thesis by simp
qed


text \<open>Rules that let the simplifier evaluate \<open>fl\<close> on a fraction of numerals.\<close>

lemma floor_rat_numeral: "\<lfloor>(numeral a / numeral b :: rat)\<rfloor> = numeral a div numeral b"
  by (metis floor_divide_of_int_eq of_int_numeral)

lemma ceiling_rat_numeral: "\<lceil>(numeral a / numeral b :: rat)\<rceil> = - (- numeral a div numeral b)"
  by (metis ceiling_def floor_divide_of_int_eq minus_divide_left of_int_minus of_int_numeral)

lemma bitlen_numeral: "bitlen (numeral n) = bitlen (numeral n div 2) + 1"
  by (subst compute_bitlen) simp

lemma bitlen_one: "bitlen 1 = 1"
  by (subst compute_bitlen) simp

lemmas fl_eval = fl_def binary_exponent_def round_even_def Let_def floor_rat_numeral
  ceiling_rat_numeral bitlen_numeral bitlen_one

text \<open>
  An integer of at most \<open>2^53\<close> in absolute value is a double, so the sum of two integers
  is exact when it is that small. At \<open>2^53\<close>, adding 1 changes nothing.
\<close>

lemma round_even_of_int: "round_even (of_int m) = m"
  by (simp add: round_even_def)

lemma fl_exact:
  assumes "0 < x" and "x / 2 powi (binary_exponent x - 52) = of_int m"
  shows "fl x = x"
proof -
  have "fl x = of_int m * 2 powi (binary_exponent x - 52)"
    using assms by (simp add: fl_def Let_def round_even_of_int)
  also have "\<dots> = x"
    using assms(2) by (simp add: field_simps)
  finally show ?thesis .
qed

lemma fl_of_nat_int:
  assumes "0 < k" and "k \<le> 2 ^ 53"
  shows "fl (of_int k) = of_int k"
proof -
  define x :: rat where "x = of_int k"
  define e where "e = binary_exponent x"
  have x0: "0 < x" using assms(1) by (simp add: x_def)
  have x1: "1 \<le> x" using assms(1) by (simp add: x_def)
  have x53: "x \<le> 2 ^ 53"
  proof -
    have "(of_int k :: rat) \<le> of_int (2 ^ 53)" using assms(2) by (simp only: of_int_le_iff)
    then show ?thesis by (simp add: x_def)
  qed
  have b: "2 powi e \<le> x" "x < 2 powi (e + 1)"
    using binary_exponent_bounds [OF x0] by (simp_all add: e_def)
  have e0: "0 \<le> e"
  proof (rule ccontr)
    assume "\<not> 0 \<le> e"
    then have "(2::rat) powi (e + 1) \<le> 2 powi 0"
      by (intro power_int_increasing) simp_all
    with b(2) x1 show False by simp
  qed
  have "(2::rat) powi e < 2 powi 54"
    using b(1) x53 by simp
  then have "e < 54" by (rule power_int_le_imp_less_exp [rotated]) simp_all
  then consider "e \<le> 52" | "e = 53" by linarith
  then have "\<exists>m. x / 2 powi (e - 52) = of_int m"
  proof cases
    case 1
    then have "(2::rat) powi (e - 52) = 1 / 2 ^ nat (52 - e)"
      using power_int_minus_divide [of "2::rat" "52 - e"] by (simp add: power_int_def)
    then have "x / 2 powi (e - 52) = of_int (k * 2 ^ nat (52 - e))"
      by (simp add: x_def)
    then show ?thesis ..
  next
    case 2
    then have "x = 2 ^ 53" using b(1) x53 by simp
    then have "x / 2 powi (e - 52) = of_int (2 ^ 52)" using 2 by simp
    then show ?thesis ..
  qed
  then obtain m where "x / 2 powi (binary_exponent x - 52) = of_int m"
    by (auto simp: e_def)
  then have "fl x = x" using x0 by (rule fl_exact [rotated])
  then show ?thesis by (simp add: x_def)
qed

lemma fl_of_int:
  assumes "\<bar>k\<bar> \<le> 2 ^ 53"
  shows "fl (of_int k) = of_int k"
proof -
  consider "k = 0" | "0 < k" | "k < 0" by linarith
  then show ?thesis
  proof cases
    case 1
    then show ?thesis by (simp add: fl_def)
  next
    case 2
    then show ?thesis using assms by (intro fl_of_nat_int) simp_all
  next
    case 3
    then have "fl (of_int (- k)) = of_int (- k)" using assms by (intro fl_of_nat_int) simp_all
    moreover have "fl (- x) = - fl x" for x
      by (simp add: fl_def Let_def)
    ultimately show ?thesis by simp
  qed
qed

lemma double_add_exact: "\<bar>a + b\<bar> \<le> 2 ^ 53 \<Longrightarrow> double_add a b = a + b"
  using fl_of_int [of "a + b"] by (simp add: double_add_def)

lemma double_add_count:
  "0 \<le> n \<Longrightarrow> n < 2 ^ 53 \<Longrightarrow> double_add n 1 = n + 1"
  by (rule double_add_exact) simp

lemma double_add_stuck: "double_add 9007199254740992 1 = 9007199254740992"
  by (simp add: double_add_def fl_eval)

text \<open>
  The fifty means whose product with 10 ends in .5: the rounded product is the
  half-integer itself (or above), and \<^verbatim>\<open>Math.round\<close> takes it up.
\<close>

lemma tie_cases:
  assumes "1 \<le> k" and "k \<le> 50"
  shows "\<lfloor>fl (fl (of_int (2 * k - 1) / 20) * 10) + 1 / 2\<rfloor> = k"
proof -
  let ?T = "\<lambda>k::int. \<lfloor>fl (fl (of_int (2 * k - 1) / 20) * 10) + 1 / 2\<rfloor> = k"
  have T:
    "?T 1" "?T 2" "?T 3" "?T 4" "?T 5" "?T 6" "?T 7" "?T 8" "?T 9" "?T 10"
    "?T 11" "?T 12" "?T 13" "?T 14" "?T 15" "?T 16" "?T 17" "?T 18" "?T 19" "?T 20"
    "?T 21" "?T 22" "?T 23" "?T 24" "?T 25" "?T 26" "?T 27" "?T 28" "?T 29" "?T 30"
    "?T 31" "?T 32" "?T 33" "?T 34" "?T 35" "?T 36" "?T 37" "?T 38" "?T 39" "?T 40"
    "?T 41" "?T 42" "?T 43" "?T 44" "?T 45" "?T 46" "?T 47" "?T 48" "?T 49" "?T 50"
    by (simp_all add: fl_eval)
  have "k = 1 \<or> k = 2 \<or> k = 3 \<or> k = 4 \<or> k = 5 \<or> k = 6 \<or> k = 7 \<or> k = 8 \<or>
      k = 9 \<or> k = 10 \<or> k = 11 \<or> k = 12 \<or> k = 13 \<or> k = 14 \<or> k = 15 \<or> k = 16 \<or>
      k = 17 \<or> k = 18 \<or> k = 19 \<or> k = 20 \<or> k = 21 \<or> k = 22 \<or> k = 23 \<or> k = 24 \<or>
      k = 25 \<or> k = 26 \<or> k = 27 \<or> k = 28 \<or> k = 29 \<or> k = 30 \<or> k = 31 \<or> k = 32 \<or>
      k = 33 \<or> k = 34 \<or> k = 35 \<or> k = 36 \<or> k = 37 \<or> k = 38 \<or> k = 39 \<or> k = 40 \<or>
      k = 41 \<or> k = 42 \<or> k = 43 \<or> k = 44 \<or> k = 45 \<or> k = 46 \<or> k = 47 \<or> k = 48 \<or>
      k = 49 \<or> k = 50"
    using assms by arith
  then show ?thesis
    by (elim disjE; simp only: T)
qed

text \<open>
  The two roundings on the way to \<^verbatim>\<open>Math.round\<close> do not change its result, for a deck
  of at most \<open>2^32\<close> cards with levels in [0,5] (\<open>S\<close> is the sum of the levels). Off a
  tie, ten times the mean is at least \<open>1 / (2 n)\<close> away from the next half-integer, more
  than the two roundings can move it. On a tie the mean is one of fifty fractions
  \<open>(2 k - 1) / 20\<close>, each of them evaluated above.
\<close>

lemma round_average:
  fixes S :: int and n :: nat
  assumes n: "0 < n" "n \<le> 2 ^ 32" and S: "0 \<le> S" "S \<le> 5 * int n"
  shows "\<lfloor>fl (fl (of_int S / of_nat n) * 10) + 1 / 2\<rfloor> = \<lfloor>(of_int S / of_nat n :: rat) * 10 + 1 / 2\<rfloor>"
proof -
  define x :: rat where "x = of_int S / of_nat n"
  define k where "k = \<lfloor>x * 10 + 1 / 2\<rfloor>"
  define y where "y = fl (fl x * 10)"
  have n0: "(0::rat) < of_nat n" using n by simp
  have x0: "0 \<le> x" using S n0 by (simp add: x_def)
  have x5: "x \<le> 5"
  proof -
    have "(of_int S :: rat) \<le> of_int (5 * int n)" using S(2) by (simp only: of_int_le_iff)
    then show ?thesis using n0 by (simp add: x_def pos_divide_le_eq)
  qed
  have k_lo: "of_int k \<le> x * 10 + 1 / 2" and k_hi: "x * 10 + 1 / 2 < of_int k + 1"
    unfolding k_def by linarith+
  show ?thesis
  proof (cases "x * 10 + 1 / 2 = of_int k")
    case True
    then have xk: "x = of_int (2 * k - 1) / 20" by simp
    have "1 \<le> k" "k \<le> 50"
      using True x0 x5 by linarith+
    then have "\<lfloor>fl (fl (of_int (2 * k - 1) / 20) * 10) + 1 / 2\<rfloor> = k"
      by (rule tie_cases)
    then have "\<lfloor>fl (fl x * 10) + 1 / 2\<rfloor> = k"
      by (simp only: xk [symmetric])
    then show ?thesis
      by (simp add: k_def x_def)
  next
    case False
    \<comment> \<open>The mean times 20 is the integer \<open>20 * S\<close> over \<open>n\<close>: off a tie, it is off by \<open>1 / (2 n)\<close>.\<close>
    have eq: "(x * 10 + 1 / 2 - of_int k) * (2 * of_nat n) = of_int (20 * S + int n - 2 * k * int n)"
      using n0 by (simp add: x_def field_simps)
    have "0 < (x * 10 + 1 / 2 - of_int k) * (2 * of_nat n)"
      using False k_lo n0 by (intro mult_pos_pos) simp_all
    then have "(0::rat) < of_int (20 * S + int n - 2 * k * int n)"
      by (simp only: eq)
    then have "0 < 20 * S + int n - 2 * k * int n"
      by (simp only: of_int_0_less_iff)
    then have "1 \<le> 20 * S + int n - 2 * k * int n"
      by simp
    then have "(1::rat) \<le> of_int (20 * S + int n - 2 * k * int n)"
      by (simp only: of_int_1_le_iff)
    then have lo: "1 / (2 * of_nat n) \<le> x * 10 + 1 / 2 - of_int k"
      using n0 by (simp only: eq [symmetric]) (simp add: field_simps)
    have eq': "(of_int k + 1 - (x * 10 + 1 / 2)) * (2 * of_nat n) =
        of_int (2 * k * int n + int n - 20 * S)"
      using n0 by (simp add: x_def field_simps)
    have "0 < (of_int k + 1 - (x * 10 + 1 / 2)) * (2 * of_nat n)"
      using k_hi n0 by (intro mult_pos_pos) simp_all
    then have "(0::rat) < of_int (2 * k * int n + int n - 20 * S)"
      by (simp only: eq')
    then have "0 < 2 * k * int n + int n - 20 * S"
      by (simp only: of_int_0_less_iff)
    then have "1 \<le> 2 * k * int n + int n - 20 * S"
      by simp
    then have "(1::rat) \<le> of_int (2 * k * int n + int n - 20 * S)"
      by (simp only: of_int_1_le_iff)
    then have hi: "1 / (2 * of_nat n) \<le> of_int k + 1 - (x * 10 + 1 / 2)"
      using n0 by (simp only: eq' [symmetric]) (simp add: field_simps)
    define m :: rat where "m = 1 / (2 * of_nat n)"
    define d :: rat where "d = 1 / 2 ^ 48"
    have "(of_nat n :: rat) \<le> of_nat (2 ^ 32)"
      using n(2) by (simp only: of_nat_le_iff)
    then have "(1::rat) / 2 ^ 33 \<le> m"
      using n0 by (simp add: m_def field_simps)
    moreover have "11 * d < 1 / 2 ^ 33"
      by (simp add: d_def)
    ultimately have margin: "11 * d < m"
      by simp
    \<comment> \<open>The two roundings move the product by less than that.\<close>
    have e1: "\<bar>fl x - x\<bar> \<le> d"
      unfolding d_def using x0 x5 by (intro fl_err) simp_all
    have d1: "d < 1"
      by (simp add: d_def)
    have q0: "0 \<le> fl x * 10"
      using fl_nonneg [OF x0] by simp
    have q64: "fl x * 10 < 64"
      using e1 x5 d1 by linarith
    have e2: "\<bar>y - fl x * 10\<bar> \<le> d"
      unfolding y_def d_def using q0 q64 by (rule fl_err)
    have "of_int k \<le> y + 1 / 2" "y + 1 / 2 < of_int k + 1"
      using e1 e2 lo hi margin unfolding m_def [symmetric] by linarith+
    then have "\<lfloor>y + 1 / 2\<rfloor> = k"
      by (simp add: floor_eq_iff)
    then show ?thesis
      by (simp add: y_def x_def k_def)
  qed
qed

section \<open>Level transition\<close>

lemma LeitnerLevel_range: "LeitnerLevel l \<longleftrightarrow> 0 \<le> l \<and> l \<le> 5"
  unfolding LeitnerLevel_def by arith

lemma calculateNewLevel_Leitner:
  "LeitnerLevel l \<Longrightarrow> LeitnerLevel (calculateNewLevel l confidence)"
  by (auto simp: calculateNewLevel_def LeitnerLevel_range)

text \<open>
  Claim C1. For every current level \<open>L\<close> in [0,5], \<open>calculateNewLevel L forgot\<close> is 0 and
  \<open>calculateNewLevel L know\<close> is \<open>min (L + 1) 5\<close>, again a level in [0,5]; at level 5,
  \<open>know\<close> stays at 5. The function has no failing branch.
\<close>

theorem calculateNewLevel_rule:
  "LeitnerLevel L \<Longrightarrow>
     calculateNewLevel L forgot = 0 \<and>
     calculateNewLevel L know = min (L + 1) 5 \<and>
     LeitnerLevel (calculateNewLevel L know) \<and>
     calculateNewLevel 5 know = 5"
  by (auto simp: calculateNewLevel_def LeitnerLevel_range)

theorem calculateNewLevel_rule_witness:
  "LeitnerLevel 4 \<and> calculateNewLevel 4 forgot = 0 \<and> calculateNewLevel 4 know = 5"
  using calculateNewLevel_rule [of 4] by (simp add: LeitnerLevel_def)

section \<open>The next review date\<close>

lemma LEITNER_INTERVALS_in: "LeitnerLevel l \<Longrightarrow> LEITNER_INTERVALS l = Some (intervalDays l)"
  by (auto simp: LeitnerLevel_def LEITNER_INTERVALS_def intervalDays_def)

lemma LEITNER_INTERVALS_out: "\<not> LeitnerLevel l \<Longrightarrow> LEITNER_INTERVALS l = None"
  by (simp add: LeitnerLevel_def LEITNER_INTERVALS_def)

lemma intervalDays_range: "0 \<le> intervalDays l \<and> intervalDays l \<le> 30"
  by (simp add: intervalDays_def)

text \<open>
  For a level of the table, the function returns the midnight that \<open>setDate\<close> and
  \<open>setHours\<close> reach, unless one of the two leaves the range of time values: then the
  Date is invalid and \<open>toISOString\<close> throws.
\<close>

lemma calculateNextReviewDate_in:
  "LeitnerLevel l \<Longrightarrow>
     calculateNextReviewDate z l (Some d) =
       (if inRange (UTC z (LocalTime z d + intervalDays l * msPerDay)) \<and>
           inRange (nextMidnight z d (intervalDays l))
        then Inr (nextMidnight z d (intervalDays l)) else Inl RangeError)"
proof (cases "inRange (UTC z (LocalTime z d + intervalDays l * msPerDay))")
  case True
  assume "LeitnerLevel l"
  with True show ?thesis
    by (simp add: calculateNextReviewDate_def LEITNER_INTERVALS_in setDate_getDate TimeClip_def
        setHours_midnight nextMidnight_def toISOString_def)
next
  case False
  assume "LeitnerLevel l"
  with False show ?thesis
    by (simp add: calculateNextReviewDate_def LEITNER_INTERVALS_in setDate_getDate TimeClip_def
        setHours_def toISOString_def)
qed

lemma calculateNextReviewDate_ok:
  assumes "LeitnerLevel l" and "zone_bounded z" and "awayFromLimits d"
  shows "calculateNextReviewDate z l (Some d) = Inr (nextMidnight z d (intervalDays l))"
  using shifted_inRange [OF assms(2,3), of "intervalDays l"]
    nextMidnight_inRange [OF assms(2,3), of "intervalDays l"] intervalDays_range [of l]
  by (simp add: calculateNextReviewDate_in [OF assms(1)])

text \<open>
  At the last instant a Date can hold, thirty days on is beyond the range: \<open>setDate\<close>
  makes the Date invalid and the function throws.
\<close>

lemma calculateNextReviewDate_limit:
  "calculateNextReviewDate utcZone 5 (Some 8640000000000000) = Inl RangeError"
proof -
  have "LeitnerLevel 5"
    by (simp add: LeitnerLevel_def)
  then show ?thesis
    by (simp add: calculateNextReviewDate_in intervalDays_def inRange_def UTC_def
        LocalTime_def utcZone_def msPerDay_def)
qed

text \<open>
  A level without an entry in the table gives \<^verbatim>\<open>undefined\<close>, the sum is NaN, \<open>setDate\<close>
  makes the Date invalid, \<open>setHours\<close> leaves it invalid and \<open>toISOString\<close> throws.
\<close>

lemma calculateNextReviewDate_out:
  "\<not> LeitnerLevel l \<Longrightarrow> calculateNextReviewDate z l d = Inl RangeError"
  by (simp add: calculateNextReviewDate_def LEITNER_INTERVALS_out setDate_def js_add_def
      setHours_def toISOString_def split: option.splits)



section \<open>Reviewing a card\<close>

lemma reviewCard_in:
  "LeitnerLevel (calculateNewLevel (level c) confidence) \<Longrightarrow>
     reviewCard z clock1 clock2 c confidence =
       (if inRange (UTC z (LocalTime z clock1 +
              intervalDays (calculateNewLevel (level c) confidence) * msPerDay)) \<and>
           inRange (nextMidnight z clock1 (intervalDays (calculateNewLevel (level c) confidence)))
        then Inr \<lparr>card_r = c\<lparr>level := calculateNewLevel (level c) confidence,
                        nextReviewDate := nextMidnight z clock1
                          (intervalDays (calculateNewLevel (level c) confidence)),
                        lastReviewDate := Some clock2,
                        reviewCount := double_add (reviewCount c) 1\<rparr>,
            previousLevel = level c,
            newLevel = calculateNewLevel (level c) confidence,
            nextReviewDate_r = nextMidnight z clock1
              (intervalDays (calculateNewLevel (level c) confidence))\<rparr>
        else Inl RangeError)"
  by (simp add: reviewCard_def Let_def calculateNextReviewDate_in toISOString_Some)

lemma reviewCard_ok:
  assumes "LeitnerLevel (calculateNewLevel (level c) confidence)"
    and "zone_bounded z" and "awayFromLimits clock1"
  shows "reviewCard z clock1 clock2 c confidence =
       Inr \<lparr>card_r = c\<lparr>level := calculateNewLevel (level c) confidence,
                        nextReviewDate := nextMidnight z clock1
                          (intervalDays (calculateNewLevel (level c) confidence)),
                        lastReviewDate := Some clock2,
                        reviewCount := double_add (reviewCount c) 1\<rparr>,
            previousLevel = level c,
            newLevel = calculateNewLevel (level c) confidence,
            nextReviewDate_r = nextMidnight z clock1
              (intervalDays (calculateNewLevel (level c) confidence))\<rparr>"
  using shifted_inRange [OF assms(2,3), of "intervalDays (calculateNewLevel (level c) confidence)"]
    nextMidnight_inRange [OF assms(2,3),
      of "intervalDays (calculateNewLevel (level c) confidence)"]
    intervalDays_range [of "calculateNewLevel (level c) confidence"]
  by (simp add: reviewCard_in [OF assms(1)])

text \<open>Whenever \<open>reviewCard\<close> returns, the new level has an interval and the result is this one.\<close>

lemma reviewCard_Inr:
  assumes "reviewCard z clock1 clock2 c confidence = Inr r"
  shows "LeitnerLevel (calculateNewLevel (level c) confidence)"
    and "r = \<lparr>card_r = c\<lparr>level := calculateNewLevel (level c) confidence,
                        nextReviewDate := nextMidnight z clock1
                          (intervalDays (calculateNewLevel (level c) confidence)),
                        lastReviewDate := Some clock2,
                        reviewCount := double_add (reviewCount c) 1\<rparr>,
            previousLevel = level c,
            newLevel = calculateNewLevel (level c) confidence,
            nextReviewDate_r = nextMidnight z clock1
              (intervalDays (calculateNewLevel (level c) confidence))\<rparr>"
proof -
  show lv: "LeitnerLevel (calculateNewLevel (level c) confidence)"
  proof (rule ccontr)
    assume "\<not> LeitnerLevel (calculateNewLevel (level c) confidence)"
    then have "reviewCard z clock1 clock2 c confidence = Inl RangeError"
      by (simp add: reviewCard_def Let_def calculateNextReviewDate_out)
    with assms show False by simp
  qed
  from assms show "r = \<lparr>card_r = c\<lparr>level := calculateNewLevel (level c) confidence,
                        nextReviewDate := nextMidnight z clock1
                          (intervalDays (calculateNewLevel (level c) confidence)),
                        lastReviewDate := Some clock2,
                        reviewCount := double_add (reviewCount c) 1\<rparr>,
            previousLevel = level c,
            newLevel = calculateNewLevel (level c) confidence,
            nextReviewDate_r = nextMidnight z clock1
              (intervalDays (calculateNewLevel (level c) confidence))\<rparr>"
    by (simp add: reviewCard_in [OF lv] split: if_splits)
qed

text \<open>
  At \<open>2^53\<close> reviews the count no longer moves: the sum of the doubles \<open>2^53\<close> and 1 is
  \<open>2^53\<close>.
\<close>

lemma reviewCard_count_limit:
  "reviewCard utcZone 0 0 ((exampleCard 0)\<lparr>reviewCount := 9007199254740992\<rparr>) know =
     Inr \<lparr>card_r = (exampleCard 0)\<lparr>level := 1, nextReviewDate := msPerDay,
                                      lastReviewDate := Some 0,
                                      reviewCount := 9007199254740992\<rparr>,
          previousLevel = 0, newLevel = 1, nextReviewDate_r = msPerDay\<rparr>"
proof -
  have "calculateNewLevel (level ((exampleCard 0)\<lparr>reviewCount := 9007199254740992\<rparr>)) know = 1"
    by (simp add: calculateNewLevel_def exampleCard_def)
  moreover have "LeitnerLevel 1"
    by (simp add: LeitnerLevel_def)
  moreover have "awayFromLimits 0"
    by (simp add: awayFromLimits_def msPerDay_def)
  moreover have "nextMidnight utcZone 0 1 = msPerDay"
    by (simp add: nextMidnight_days [OF zone_days_utcZone] localMidnight_def localDay_def
        Day_def LocalTime_def UTC_def utcZone_def)
  ultimately show ?thesis
    using reviewCard_ok [of "(exampleCard 0)\<lparr>reviewCount := 9007199254740992\<rparr>" know
        utcZone 0 0] zone_bounded_utcZone
    by (simp add: exampleCard_def intervalDays_def double_add_stuck)
qed

text \<open>
  Claim C2. For every card (an object at reference \<open>ref\<close> of the store, with a level in
  [0,5] and a review count below \<open>2^53\<close> in absolute value, where a double still
  counts by ones) and every confidence, \<open>reviewCard\<close> (at a clock reading at least 40 days inside
  the range of Date, with zone offsets below a day) returns an updated card: its level is
  the new level, its \<open>nextReviewDate\<close> the due date recomputed for the new level at the
  review moment, its \<open>lastReviewDate\<close> the review moment, its \<open>reviewCount\<close> one more than
  before; id, question, answer and \<open>createdAt\<close> are carried over. The updated card is a
  new object (\<open>ref' \<noteq> ref\<close>), and every object of the store, the input card among them,
  is as it was.
\<close>

theorem reviewCard_frame:
  assumes "ref < length h" and "LeitnerLevel (level (h ! ref))"
    and "\<bar>reviewCount (h ! ref)\<bar> < 2 ^ 53"
    and "zone_bounded z" and "awayFromLimits clock1"
  shows "\<exists>h' ref' r.
     reviewCard_store z clock1 clock2 h ref confidence = Inr (h', ref', r) \<and>
     h' ! ref' = card_r r \<and>
     level (card_r r) = calculateNewLevel (level (h ! ref)) confidence \<and>
     calculateNextReviewDate z (level (card_r r)) (Some clock1) =
       Inr (nextReviewDate (card_r r)) \<and>
     lastReviewDate (card_r r) = Some clock2 \<and>
     reviewCount (card_r r) = reviewCount (h ! ref) + 1 \<and>
     card_id (card_r r) = card_id (h ! ref) \<and>
     question (card_r r) = question (h ! ref) \<and>
     answer (card_r r) = answer (h ! ref) \<and>
     createdAt (card_r r) = createdAt (h ! ref) \<and>
     ref' \<noteq> ref \<and> take (length h) h' = h \<and> h' ! ref = h ! ref"
proof -
  let ?c = "h ! ref"
  have lv: "LeitnerLevel (calculateNewLevel (level ?c) confidence)"
    using assms(2) by (rule calculateNewLevel_Leitner)
  have rc: "double_add (reviewCount ?c) 1 = reviewCount ?c + 1"
    using assms(3) by (intro double_add_exact) simp
  show ?thesis
    using assms(1)
    by (simp add: reviewCard_store_def reviewCard_ok [OF lv assms(4,5)]
        calculateNextReviewDate_ok [OF lv assms(4,5)] rc nth_append)
qed

theorem reviewCard_frame_witness:
  "0 < length [exampleCard 3] \<and> LeitnerLevel (level ([exampleCard 3] ! 0)) \<and>
   \<bar>reviewCount ([exampleCard 3] ! 0)\<bar> < 2 ^ 53 \<and>
   zone_bounded newYork2024 \<and> awayFromLimits 1710045000000 \<and>
   (\<exists>h' ref' r.
      reviewCard_store newYork2024 1710045000000 1710045000002 [exampleCard 3] 0 know =
        Inr (h', ref', r) \<and>
      h' ! 0 = exampleCard 3 \<and> h' ! ref' = card_r r \<and> ref' \<noteq> 0 \<and>
      level (card_r r) = 4 \<and> reviewCount (card_r r) = 1 \<and>
      lastReviewDate (card_r r) = Some 1710045000002 \<and> card_id (card_r r) = ''c1'')"
proof -
  have len: "0 < length [exampleCard 3]"
    by simp
  have lv: "LeitnerLevel (level ([exampleCard 3] ! 0))"
    by (simp add: exampleCard_def LeitnerLevel_def)
  have rc: "\<bar>reviewCount ([exampleCard 3] ! 0)\<bar> < 2 ^ 53"
    by (simp add: exampleCard_def)
  have a: "awayFromLimits 1710045000000"
    by (simp add: awayFromLimits_def msPerDay_def)
  have ex: "level (exampleCard 3) = 3" "reviewCount (exampleCard 3) = 0"
    "card_id (exampleCard 3) = ''c1''"
    by (simp_all add: exampleCard_def)
  show ?thesis
    using reviewCard_frame [OF len lv rc zone_bounded_newYork2024 a, of 1710045000002 know]
      len lv rc a zone_bounded_newYork2024
    by (simp add: ex calculateNewLevel_def) blast
qed

text \<open>
  Claim C10. The \<open>ReviewResult\<close> of \<open>reviewCard\<close> is coherent: \<open>previousLevel\<close> is the level
  of the input card, \<open>newLevel\<close> the level of the returned card, and the result's
  \<open>nextReviewDate\<close> the returned card's. A card with a level in [0,5] gets a result
  whenever the due date is a valid Date, as it is at a clock reading at least 40 days
  inside the range of Date with zone offsets below a day.
\<close>

theorem reviewCard_coherent:
  "(\<forall>r. reviewCard z clock1 clock2 c confidence = Inr r \<longrightarrow>
        previousLevel r = level c \<and>
        newLevel r = level (card_r r) \<and>
        nextReviewDate_r r = nextReviewDate (card_r r)) \<and>
   (LeitnerLevel (level c) \<and> zone_bounded z \<and> awayFromLimits clock1 \<longrightarrow>
      (\<exists>r. reviewCard z clock1 clock2 c confidence = Inr r))"
proof (intro conjI allI impI)
  fix r assume r: "reviewCard z clock1 clock2 c confidence = Inr r"
  show "previousLevel r = level c" by (simp add: reviewCard_Inr(2) [OF r])
  show "newLevel r = level (card_r r)" by (simp add: reviewCard_Inr(2) [OF r])
  show "nextReviewDate_r r = nextReviewDate (card_r r)" by (simp add: reviewCard_Inr(2) [OF r])
next
  assume h: "LeitnerLevel (level c) \<and> zone_bounded z \<and> awayFromLimits clock1"
  then have "LeitnerLevel (calculateNewLevel (level c) confidence)"
    by (simp add: calculateNewLevel_Leitner)
  then show "\<exists>r. reviewCard z clock1 clock2 c confidence = Inr r"
    using h by (simp add: reviewCard_ok)
qed

theorem reviewCard_coherent_witness:
  "LeitnerLevel (level (exampleCard 3)) \<and> zone_bounded utcZone \<and> awayFromLimits 1000 \<and>
   (\<exists>r. reviewCard utcZone 1000 2000 (exampleCard 3) know = Inr r \<and>
      previousLevel r = 3 \<and> newLevel r = level (card_r r) \<and>
      nextReviewDate_r r = nextReviewDate (card_r r))"
proof -
  have lv: "LeitnerLevel (level (exampleCard 3))"
    by (simp add: exampleCard_def LeitnerLevel_def)
  have a: "awayFromLimits 1000"
    by (simp add: awayFromLimits_def msPerDay_def)
  have ex: "level (exampleCard 3) = 3"
    by (simp add: exampleCard_def)
  show ?thesis
    using reviewCard_coherent [of utcZone 1000 2000 "exampleCard 3" know] lv a
      zone_bounded_utcZone
    by (simp add: ex) blast
qed

section \<open>Due cards\<close>

lemma isCardDue_iff:
  "isCardDue z asOf c \<longleftrightarrow> inRange (startOfDay z asOf) \<and> nextReviewDate c \<le> startOfDay z asOf"
  by (simp add: isCardDue_def Let_def setHours_midnight Date_parse_def Date_le_def TimeClip_def)

text \<open>
  Claim C4. \<open>isCardDue\<close>, with the clock reading \<open>asOf\<close>, holds exactly when the card's
  \<open>nextReviewDate\<close> is at most the start of the day of \<open>asOf\<close>, compared as Dates (the
  start of the day is the Date that \<open>TimeClip\<close> makes of it). So a card that is due at
  \<open>t1\<close> is due at every later \<open>t2\<close> of the same calendar day.
\<close>

theorem isCardDue_spec:
  "(isCardDue z asOf c \<longleftrightarrow>
      Date_le (Date_parse (nextReviewDate c)) (TimeClip (startOfDay z asOf))) \<and>
   (inRange (startOfDay z asOf) \<longrightarrow>
      (isCardDue z asOf c \<longleftrightarrow> nextReviewDate c \<le> startOfDay z asOf)) \<and>
   (isCardDue z t1 c \<and> t1 \<le> t2 \<and> sameDay z t1 t2 \<longrightarrow> isCardDue z t2 c)"
  using startOfDay_sameDay [of z t1 t2]
  by (auto simp: isCardDue_iff Date_parse_def Date_le_def TimeClip_def)

theorem isCardDue_spec_witness:
  "inRange (startOfDay utcZone 1000) \<and>
   isCardDue utcZone 1000 (exampleCard 0) \<and> (1000::int) \<le> 2000 \<and> sameDay utcZone 1000 2000 \<and>
   isCardDue utcZone 2000 (exampleCard 0)"
proof -
  have st: "startOfDay utcZone 1000 = 0"
    by (simp add: startOfDay_def localMidnight_def localDay_def Day_def LocalTime_def UTC_def
        utcZone_def msPerDay_def)
  have sd: "sameDay utcZone 1000 2000"
    by (simp add: sameDay_def localDay_def Day_def LocalTime_def utcZone_def msPerDay_def)
  have due: "isCardDue utcZone 1000 (exampleCard 0)"
    by (simp add: isCardDue_iff st inRange_def exampleCard_def)
  show ?thesis
    using isCardDue_spec [of utcZone 1000 "exampleCard 0" 1000 2000] sd due
    by (simp add: st inRange_def)
qed

lemma subseq_filter_enumerate: "subseq (map snd (filter P (enumerate n xs))) xs"
  by (induction xs arbitrary: n) auto

text \<open>The due cards are a subsequence of the deck: in the deck's order, each card as it was.\<close>

lemma getDueCards_subseq: "subseq (getDueCards z clock cards) cards"
  unfolding getDueCards_def by (rule subseq_filter_enumerate)

lemma filter_enumerate_const:
  "map snd (filter (\<lambda>(i, c). P c) (enumerate n xs)) = filter P xs"
  by (induction xs arbitrary: n) auto

text \<open>When the clock does not move during the pass, the due cards are a plain filter.\<close>

lemma getDueCards_const_clock:
  "getDueCards z (\<lambda>i. now) cards = filter (isCardDue z now) cards"
  unfolding getDueCards_def by (rule filter_enumerate_const)

section \<open>Deck statistics\<close>

lemma foldl_level_sum: "foldl (\<lambda>sum c. sum + level c) a cards = a + sum_list (map level cards)"
  by (induction cards arbitrary: a) simp_all

lemma floor_half: "\<lfloor>(1::rat) / 2\<rfloor> = 0"
  by (simp add: floor_eq_iff)

lemma fl_zero: "fl 0 = 0"
  by (simp add: fl_def)

lemma sum_levels_bounds:
  "\<forall>c \<in> set cards. LeitnerLevel (level c) \<Longrightarrow>
     0 \<le> sum_list (map level cards) \<and> sum_list (map level cards) \<le> 5 * int (length cards)"
  by (induction cards) (auto simp: LeitnerLevel_range)

lemma averageLevel_eq:
  assumes "cards \<noteq> []" and "\<forall>c \<in> set cards. LeitnerLevel (level c)"
    and "length cards \<le> 2 ^ 32"
  shows "averageLevel (calculateDeckStats z clock cards) = fl (roundHalfUp1 (meanLevel cards))"
proof -
  let ?S = "sum_list (map level cards)"
  let ?n = "length cards"
  have n: "0 < ?n" using assms(1) by simp
  have "\<lfloor>fl (fl (of_int ?S / of_nat ?n) * 10) + 1 / 2\<rfloor> =
      \<lfloor>(of_int ?S / of_nat ?n :: rat) * 10 + 1 / 2\<rfloor>"
    using n assms(3) sum_levels_bounds [OF assms(2)] by (intro round_average) simp_all
  then show ?thesis
    using n
    by (simp add: calculateDeckStats_def Let_def foldl_level_sum Math_round_def roundHalfUp1_def
        meanLevel_def)
qed

text \<open>
  Claim C5. For every list of cards, \<open>calculateDeckStats\<close> returns the number of cards, the
  number of due cards (the length of \<open>getDueCards\<close>) and the number of cards at level 5.
  The average level is 0 for the empty list; for a deck of cards with levels in [0,5]
  (an array, so of at most \<open>2^32\<close> cards) it is the mean of the levels rounded to one
  decimal place, half up, as a double: the double nearest to that decimal. The empty deck
  gives all zeros, levels 1, 2 give 1.5 and levels 1, 1, 2 give 1.3, the double nearest to
  \<open>13 / 10\<close>.
\<close>

theorem calculateDeckStats_spec:
  "totalCards (calculateDeckStats z clock cards) = length cards \<and>
   cardsToReview (calculateDeckStats z clock cards) = length (getDueCards z clock cards) \<and>
   masteredCards (calculateDeckStats z clock cards) = length (filter (\<lambda>c. level c = 5) cards) \<and>
   (cards \<noteq> [] \<and> (\<forall>c \<in> set cards. LeitnerLevel (level c)) \<and> length cards \<le> 2 ^ 32 \<longrightarrow>
      averageLevel (calculateDeckStats z clock cards) = fl (roundHalfUp1 (meanLevel cards))) \<and>
   calculateDeckStats z clock [] =
     \<lparr>totalCards = 0, cardsToReview = 0, masteredCards = 0, averageLevel = 0\<rparr> \<and>
   averageLevel (calculateDeckStats z clock [c1\<lparr>level := 1\<rparr>, c2\<lparr>level := 2\<rparr>]) = 15 / 10 \<and>
   averageLevel (calculateDeckStats z clock
     [c1\<lparr>level := 1\<rparr>, c2\<lparr>level := 1\<rparr>, c3\<lparr>level := 2\<rparr>]) = fl (13 / 10)"
proof (intro conjI impI)
  assume "cards \<noteq> [] \<and> (\<forall>c \<in> set cards. LeitnerLevel (level c)) \<and> length cards \<le> 2 ^ 32"
  then show "averageLevel (calculateDeckStats z clock cards) =
      fl (roundHalfUp1 (meanLevel cards))"
    by (simp add: averageLevel_eq)
next
  show "calculateDeckStats z clock [] =
     \<lparr>totalCards = 0, cardsToReview = 0, masteredCards = 0, averageLevel = 0\<rparr>"
    by (simp add: calculateDeckStats_def getDueCards_def Math_round_def floor_half fl_zero)
next
  let ?cs = "[c1\<lparr>level := 1\<rparr>, c2\<lparr>level := 2\<rparr>]"
  have "averageLevel (calculateDeckStats z clock ?cs) = fl (roundHalfUp1 (meanLevel ?cs))"
    by (rule averageLevel_eq) (simp_all add: LeitnerLevel_def)
  also have "roundHalfUp1 (meanLevel ?cs) = 3 / 2"
    by (simp add: roundHalfUp1_def meanLevel_def floor_eq_iff)
  also have "fl (3 / 2) = 3 / 2"
    by (simp add: fl_eval)
  finally show "averageLevel (calculateDeckStats z clock ?cs) = 15 / 10"
    by simp
next
  let ?cs = "[c1\<lparr>level := 1\<rparr>, c2\<lparr>level := 1\<rparr>, c3\<lparr>level := 2\<rparr>]"
  have "averageLevel (calculateDeckStats z clock ?cs) = fl (roundHalfUp1 (meanLevel ?cs))"
    by (rule averageLevel_eq) (simp_all add: LeitnerLevel_def)
  also have "roundHalfUp1 (meanLevel ?cs) = 13 / 10"
    by (simp add: roundHalfUp1_def meanLevel_def floor_eq_iff)
  finally show "averageLevel (calculateDeckStats z clock ?cs) = fl (13 / 10)" .
qed (simp_all add: calculateDeckStats_def Let_def)

text \<open>
  An instance: three cards of levels 1, 1, 2. The mean 4/3 becomes the double
  1.3333333333333333, its product with 10 the double 13.333333333333332, and the result
  is the double 1.3, which is \<open>5854679515581645 / 2^52\<close>.
\<close>

theorem calculateDeckStats_spec_witness:
  "[exampleCard 1, exampleCard 1, exampleCard 2] \<noteq> [] \<and>
   LeitnerLevel (level (exampleCard 1)) \<and> LeitnerLevel (level (exampleCard 2)) \<and>
   length [exampleCard 1, exampleCard 1, exampleCard 2] \<le> 2 ^ 32 \<and>
   averageLevel (calculateDeckStats utcZone (\<lambda>i. 0) [exampleCard 1, exampleCard 1, exampleCard 2]) =
     5854679515581645 / 4503599627370496"
proof -
  let ?cs = "[exampleCard 1, exampleCard 1, exampleCard 2]"
  have lv: "LeitnerLevel (level (exampleCard 1))" "LeitnerLevel (level (exampleCard 2))"
    by (simp_all add: exampleCard_def LeitnerLevel_def)
  have r: "roundHalfUp1 (meanLevel ?cs) = 13 / 10"
    by (simp add: roundHalfUp1_def meanLevel_def exampleCard_def floor_eq_iff)
  have f: "fl (13 / 10) = 5854679515581645 / 4503599627370496"
    by (simp add: fl_eval)
  have "averageLevel (calculateDeckStats utcZone (\<lambda>i. 0) ?cs) = fl (roundHalfUp1 (meanLevel ?cs))"
    using calculateDeckStats_spec [of utcZone "\<lambda>i. 0" ?cs] lv by simp
  then have "averageLevel (calculateDeckStats utcZone (\<lambda>i. 0) ?cs) =
      5854679515581645 / 4503599627370496"
    by (simp only: r f)
  then show ?thesis
    using lv by simp
qed

section \<open>Creating a card\<close>

text \<open>
  \<open>createNewCard\<close> returns a card unless the start of the day lies outside the range of
  time values, where \<open>setHours\<close> makes the Date invalid and \<open>toISOString\<close> throws.
\<close>

lemma createNewCard_eq:
  "createNewCard z uuid clock q a =
     (if inRange (startOfDay z clock)
      then Inr \<lparr>card_id = uuid, question = q, answer = a, level = 0,
               nextReviewDate = startOfDay z clock, lastReviewDate = None,
               createdAt = clock, reviewCount = 0\<rparr>
      else Inl RangeError)"
  by (simp add: createNewCard_def Let_def setHours_midnight toISOString_def TimeClip_def)




section \<open>The review scenario\<close>



section \<open>The level invariant\<close>

lemma map_throwing_Inr: "map_throwing (\<lambda>x. Inr (g x)) xs = Inr (map g xs)"
  by (induction xs) simp_all

lemma map_throwing_Inl: "xs \<noteq> [] \<Longrightarrow> map_throwing (\<lambda>x. Inl e) xs = Inl e"
  by (cases xs) simp_all

text \<open>
  The deck reset gives every card level 0, the start of the current day as due date, no
  \<open>lastReviewDate\<close> and \<open>reviewCount\<close> 0, and keeps its other fields. It fails only on a
  deck with a card in it when the start of the day is not a valid Date.
\<close>

lemma resetDeck_eq:
  "resetDeck z clock cards =
     (if inRange (startOfDay z clock) \<or> cards = []
      then Inr (map (\<lambda>c. c\<lparr>level := 0, nextReviewDate := startOfDay z clock,
                             lastReviewDate := None, reviewCount := 0\<rparr>) cards)
      else Inl RangeError)"
  by (simp add: resetDeck_def Let_def setHours_midnight toISOString_def TimeClip_def
      map_throwing_Inr map_throwing_Inl)

text \<open>
  Claim C6, as stated, fails in its last part: the level is not changed by the two
  review transitions alone. The deck reset takes a card of level 3 to level 0, with no
  review (the other fields of this card stay as they are).
\<close>

theorem level_invariant_counterexample:
  "level (exampleCard 3) = 3 \<and>
   resetDeck utcZone 0 [exampleCard 3] = Inr [(exampleCard 3)\<lparr>level := 0\<rparr>]"
  by (simp add: resetDeck_eq exampleCard_def startOfDay_def localMidnight_def localDay_def
      Day_def LocalTime_def UTC_def utcZone_def inRange_def)

text \<open>
  Claim C6, amended. Every operation that produces a card yields a level in [0,5]:
  \<open>createNewCard\<close> gives level 0; \<open>reviewCard\<close>, whenever it returns, gives the level that
  \<open>calculateNewLevel\<close> computes from the old one, which is in [0,5]; the deck reset gives
  every card level 0. The level is changed by these two operations only: \<open>getDueCards\<close>
  returns cards of the deck as they are. The three operations return (\<open>reviewCard\<close> for
  a card with a level in [0,5]) at clock readings at least 40 days inside the range of
  Date, with zone offsets below a day.
\<close>

theorem level_invariant:
  "(\<forall>c'. createNewCard z uuid clock q a = Inr c' \<longrightarrow> level c' = 0) \<and>
   (\<forall>r. reviewCard z clock1 clock2 c confidence = Inr r \<longrightarrow>
        level (card_r r) = calculateNewLevel (level c) confidence \<and>
        LeitnerLevel (level (card_r r))) \<and>
   (\<forall>cs. resetDeck z clock cards = Inr cs \<longrightarrow>
        length cs = length cards \<and> (\<forall>c' \<in> set cs. level c' = 0)) \<and>
   subseq (getDueCards z clk cards) cards \<and>
   (zone_bounded z \<and> awayFromLimits clock \<and> awayFromLimits clock1 \<longrightarrow>
      (\<exists>c'. createNewCard z uuid clock q a = Inr c' \<and> level c' = 0) \<and>
      (LeitnerLevel (level c) \<longrightarrow> (\<exists>r. reviewCard z clock1 clock2 c confidence = Inr r)) \<and>
      (\<exists>cs. resetDeck z clock cards = Inr cs \<and>
         length cs = length cards \<and> (\<forall>c' \<in> set cs. level c' = 0)))"
proof (intro conjI allI impI)
  fix c' assume "createNewCard z uuid clock q a = Inr c'"
  then show "level c' = 0"
    by (auto simp: createNewCard_eq split: if_splits)
next
  fix r assume r: "reviewCard z clock1 clock2 c confidence = Inr r"
  show "level (card_r r) = calculateNewLevel (level c) confidence"
    by (simp add: reviewCard_Inr(2) [OF r])
  then show "LeitnerLevel (level (card_r r))"
    using reviewCard_Inr(1) [OF r] by simp
next
  fix cs assume cs: "resetDeck z clock cards = Inr cs"
  then show "length cs = length cards"
    by (auto simp: resetDeck_eq split: if_splits)
  from cs show "\<forall>c' \<in> set cs. level c' = 0"
    by (auto simp: resetDeck_eq split: if_splits)
next
  show "subseq (getDueCards z clk cards) cards"
    by (rule getDueCards_subseq)
next
  assume h: "zone_bounded z \<and> awayFromLimits clock \<and> awayFromLimits clock1"
  then have "inRange (startOfDay z clock)"
    by (simp add: startOfDay_inRange)
  then show "\<exists>c'. createNewCard z uuid clock q a = Inr c' \<and> level c' = 0"
    and "\<exists>cs. resetDeck z clock cards = Inr cs \<and>
         length cs = length cards \<and> (\<forall>c' \<in> set cs. level c' = 0)"
    by (simp_all add: createNewCard_eq resetDeck_eq)
next
  assume h: "zone_bounded z \<and> awayFromLimits clock \<and> awayFromLimits clock1"
    and "LeitnerLevel (level c)"
  then have "LeitnerLevel (calculateNewLevel (level c) confidence)"
    by (simp add: calculateNewLevel_Leitner)
  then show "\<exists>r. reviewCard z clock1 clock2 c confidence = Inr r"
    using h by (simp add: reviewCard_ok)
qed

theorem level_invariant_witness:
  "zone_bounded utcZone \<and> awayFromLimits 1000 \<and> LeitnerLevel (level (exampleCard 5)) \<and>
   (\<exists>c'. createNewCard utcZone ''u'' 1000 ''Q'' ''A'' = Inr c' \<and> level c' = 0) \<and>
   (\<exists>r. reviewCard utcZone 1000 2000 (exampleCard 5) know = Inr r \<and>
      level (card_r r) = 5 \<and> LeitnerLevel (level (card_r r))) \<and>
   (\<exists>cs. resetDeck utcZone 1000 [exampleCard 3, exampleCard 5] = Inr cs \<and>
      length cs = 2 \<and> map level cs = [0, 0])"
proof -
  have l5: "LeitnerLevel (level (exampleCard 5))"
    by (simp add: exampleCard_def LeitnerLevel_def)
  have ex: "level (exampleCard 5) = 5"
    by (simp add: exampleCard_def)
  have a: "awayFromLimits 1000"
    by (simp add: awayFromLimits_def msPerDay_def)
  have "inRange (startOfDay utcZone 1000)"
    using zone_bounded_utcZone a by (rule startOfDay_inRange)
  then have rs: "\<exists>cs. resetDeck utcZone 1000 [exampleCard 3, exampleCard 5] = Inr cs \<and>
      length cs = 2 \<and> map level cs = [0, 0]"
    by (simp add: resetDeck_eq)
  show ?thesis
    using level_invariant [of utcZone "''u''" 1000 "''Q''" "''A''" 1000 2000 "exampleCard 5" know
        "[exampleCard 3, exampleCard 5]" "\<lambda>i. 0"] l5 a zone_bounded_utcZone rs
    by (auto simp: ex calculateNewLevel_def)
qed

section \<open>Levels outside the range\<close>




end
